theory Spec2Isabelle
  imports Complex_Main
begin

section \<open>JavaScript numbers\<close>

text \<open>
  The engine computes with JavaScript numbers. A number is modelled as a real that is
  computed exactly, or one of the three non-finite values that \<^verbatim>\<open>parseFloat\<close> and
  division can produce. Rounding to binary64 and overflow of finite arithmetic are outside
  this model. Zero carries no sign: every zero that the program divides by
  (\<^verbatim>\<open>position + trade.quantity\<close>, \<^verbatim>\<open>avgProfit\<close>, \<^verbatim>\<open>trades.length\<close>, the number of keys)
  is a positive zero in JavaScript, since none of them is produced as a negative zero, so
  division by zero follows the rule for \<^verbatim>\<open>+0\<close>.
\<close>

datatype jsnum = Num real | PInf | NInf | NaN

fun js_neg :: "jsnum \<Rightarrow> jsnum" where
  "js_neg (Num a) = Num (- a)"
| "js_neg PInf = NInf"
| "js_neg NInf = PInf"
| "js_neg NaN = NaN"

fun js_add :: "jsnum \<Rightarrow> jsnum \<Rightarrow> jsnum" where
  "js_add (Num a) (Num b) = Num (a + b)"
| "js_add NaN _ = NaN"
| "js_add _ NaN = NaN"
| "js_add PInf NInf = NaN"
| "js_add NInf PInf = NaN"
| "js_add PInf _ = PInf"
| "js_add _ PInf = PInf"
| "js_add NInf _ = NInf"
| "js_add _ NInf = NInf"

definition js_sub :: "jsnum \<Rightarrow> jsnum \<Rightarrow> jsnum" where
  "js_sub a b = js_add a (js_neg b)"

text \<open>An infinity times a finite number: the sign of the product, or NaN for zero.\<close>

definition inf_times :: "bool \<Rightarrow> real \<Rightarrow> jsnum" where
  "inf_times positive b =
     (if b = 0 then NaN else if (0 < b) = positive then PInf else NInf)"

fun js_mul :: "jsnum \<Rightarrow> jsnum \<Rightarrow> jsnum" where
  "js_mul (Num a) (Num b) = Num (a * b)"
| "js_mul NaN _ = NaN"
| "js_mul _ NaN = NaN"
| "js_mul PInf (Num b) = inf_times True b"
| "js_mul NInf (Num b) = inf_times False b"
| "js_mul (Num a) PInf = inf_times True a"
| "js_mul (Num a) NInf = inf_times False a"
| "js_mul PInf PInf = PInf"
| "js_mul NInf NInf = PInf"
| "js_mul PInf NInf = NInf"
| "js_mul NInf PInf = NInf"

fun js_div :: "jsnum \<Rightarrow> jsnum \<Rightarrow> jsnum" where
  "js_div (Num a) (Num b) =
     (if b = 0 then (if 0 < a then PInf else if a < 0 then NInf else NaN)
      else Num (a / b))"
| "js_div NaN _ = NaN"
| "js_div _ NaN = NaN"
| "js_div (Num a) PInf = Num 0"
| "js_div (Num a) NInf = Num 0"
| "js_div PInf (Num b) = (if b < 0 then NInf else PInf)"
| "js_div NInf (Num b) = (if b < 0 then PInf else NInf)"
| "js_div PInf _ = NaN"
| "js_div NInf _ = NaN"

text \<open>\<^verbatim>\<open>a > b\<close>: false as soon as one side is NaN.\<close>

fun js_gt :: "jsnum \<Rightarrow> jsnum \<Rightarrow> bool" where
  "js_gt (Num a) (Num b) = (b < a)"
| "js_gt NaN _ = False"
| "js_gt _ NaN = False"
| "js_gt PInf PInf = False"
| "js_gt PInf _ = True"
| "js_gt NInf _ = False"
| "js_gt (Num a) PInf = False"
| "js_gt (Num a) NInf = True"

definition js_lt :: "jsnum \<Rightarrow> jsnum \<Rightarrow> bool" where
  "js_lt a b = js_gt b a"

text \<open>\<^verbatim>\<open>a >= b\<close> and \<^verbatim>\<open>a <= b\<close>, again false on NaN.\<close>

definition js_ge :: "jsnum \<Rightarrow> jsnum \<Rightarrow> bool" where
  "js_ge a b = (a \<noteq> NaN \<and> b \<noteq> NaN \<and> \<not> js_gt b a)"

definition js_le :: "jsnum \<Rightarrow> jsnum \<Rightarrow> bool" where
  "js_le a b = js_ge b a"

fun Math_abs :: "jsnum \<Rightarrow> jsnum" where
  "Math_abs (Num a) = Num \<bar>a\<bar>"
| "Math_abs PInf = PInf"
| "Math_abs NInf = PInf"
| "Math_abs NaN = NaN"

text \<open>\<^verbatim>\<open>Math.min\<close> and \<^verbatim>\<open>Math.max\<close> of two numbers: NaN if either is NaN.\<close>

definition Math_min :: "jsnum \<Rightarrow> jsnum \<Rightarrow> jsnum" where
  "Math_min a b = (if a = NaN \<or> b = NaN then NaN else if js_gt a b then b else a)"

definition Math_max :: "jsnum \<Rightarrow> jsnum \<Rightarrow> jsnum" where
  "Math_max a b = (if a = NaN \<or> b = NaN then NaN else if js_gt b a then b else a)"

text \<open>\<^verbatim>\<open>Math.max(...xs)\<close>: the maximum of any number of arguments, \<^verbatim>\<open>-Infinity\<close> of none.\<close>

definition Math_max_spread :: "jsnum list \<Rightarrow> jsnum" where
  "Math_max_spread xs = foldl Math_max NInf xs"

text \<open>\<^verbatim>\<open>xs.reduce((a, b) => a + b, 0)\<close>\<close>

definition reduce_sum :: "jsnum list \<Rightarrow> jsnum" where
  "reduce_sum xs = foldl js_add (Num 0) xs"

text \<open>
  \<^verbatim>\<open>parseFloat(x.toFixed(1))\<close>: \<^verbatim>\<open>toFixed\<close> picks the integer \<open>n\<close> with \<open>n / 10\<close> nearest to
  the magnitude, the larger one on a tie, and keeps the sign; from \<open>10^21\<close> on, and for
  the non-finite values, it prints the number itself.
\<close>

fun toFixed1 :: "jsnum \<Rightarrow> jsnum" where
  "toFixed1 (Num a) =
     (if 10 ^ 21 \<le> \<bar>a\<bar> then Num a
      else Num (sgn a * real_of_int \<lfloor>\<bar>a\<bar> * 10 + 1 / 2\<rfloor> / 10))"
| "toFixed1 x = x"

section \<open>Trades\<close>

record Trade =
  date :: string
  symbol :: string
  action :: string
  quantity :: jsnum
  price :: jsnum

text \<open>\<^verbatim>\<open>String.prototype.toLowerCase\<close>, on the ASCII letters.\<close>

definition lower_char :: "char \<Rightarrow> char" where
  "lower_char c =
     (case map_of (zip ''ABCDEFGHIJKLMNOPQRSTUVWXYZ'' ''abcdefghijklmnopqrstuvwxyz'') c of
        Some l \<Rightarrow> l
      | None \<Rightarrow> c)"

definition toLowerCase :: "string \<Rightarrow> string" where
  "toLowerCase s = map lower_char s"

section \<open>Position Reconstructor\<close>

text \<open>
  The variables of the replay: \<^verbatim>\<open>position\<close> and \<^verbatim>\<open>avgCost\<close> are local to one symbol,
  \<^verbatim>\<open>profits\<close> and \<^verbatim>\<open>losses\<close> are shared by all symbols.
\<close>

record PositionState =
  position :: jsnum
  avgCost :: jsnum
  profits :: "jsnum list"
  losses :: "jsnum list"

text \<open>The body of \<^verbatim>\<open>symbolTradeList.forEach\<close>.\<close>

definition processTrade :: "PositionState \<Rightarrow> Trade \<Rightarrow> PositionState" where
  "processTrade s trade =
     (if toLowerCase (action trade) = ''buy'' then
        s\<lparr>avgCost :=
             js_div (js_add (js_mul (avgCost s) (position s))
                            (js_mul (price trade) (quantity trade)))
                    (js_add (position s) (quantity trade)),
          position := js_add (position s) (quantity trade)\<rparr>
      else if toLowerCase (action trade) = ''sell'' \<and> js_gt (position s) (Num 0) then
        (let pnl = js_mul (js_sub (price trade) (avgCost s))
                          (Math_min (quantity trade) (position s));
             s' = (if js_gt pnl (Num 0) then s\<lparr>profits := profits s @ [pnl]\<rparr>
                   else s\<lparr>losses := losses s @ [Math_abs pnl]\<rparr>)
         in s'\<lparr>position := js_sub (position s') (quantity trade)\<rparr>)
      else s)"

section \<open>Grouping by symbol\<close>

text \<open>
  \<^verbatim>\<open>symbolTrades\<close> is an object literal used as a dictionary: its own properties, in
  creation order, as an association list. A lookup that finds no own property falls
  through to \<^verbatim>\<open>Object.prototype\<close>; what it finds there is truthy and has no
  \<^verbatim>\<open>push\<close>, so for such a symbol \<^verbatim>\<open>symbolTrades[trade.symbol].push(trade)\<close> throws a
  TypeError.
\<close>

datatype js_error = TypeError

definition objectPrototypeKeys :: "string list" where
  "objectPrototypeKeys =
     [''constructor'', ''hasOwnProperty'', ''isPrototypeOf'', ''propertyIsEnumerable'',
      ''toLocaleString'', ''toString'', ''valueOf'', ''__proto__'',
      ''__defineGetter__'', ''__defineSetter__'', ''__lookupGetter__'', ''__lookupSetter__'']"

type_synonym 'v js_object = "(string \<times> 'v) list"

definition set_own :: "string \<Rightarrow> 'v \<Rightarrow> 'v js_object \<Rightarrow> 'v js_object" where
  "set_own k v obj =
     (case map_of obj k of
        None \<Rightarrow> obj @ [(k, v)]
      | Some _ \<Rightarrow> map (\<lambda>(k', v'). if k' = k then (k', v) else (k', v')) obj)"

text \<open>The body of the first \<^verbatim>\<open>trades.forEach\<close>.\<close>

definition pushTrade :: "Trade list js_object \<Rightarrow> Trade \<Rightarrow> js_error + Trade list js_object" where
  "pushTrade symbolTrades trade =
     (case map_of symbolTrades (symbol trade) of
        Some l \<Rightarrow> Inr (set_own (symbol trade) (l @ [trade]) symbolTrades)
      | None \<Rightarrow>
          if symbol trade \<in> set objectPrototypeKeys then Inl TypeError
          else Inr (set_own (symbol trade) [trade] symbolTrades))"

fun groupBySymbol :: "Trade list js_object \<Rightarrow> Trade list \<Rightarrow> js_error + Trade list js_object" where
  "groupBySymbol symbolTrades [] = Inr symbolTrades"
| "groupBySymbol symbolTrades (trade # trades) =
     (case pushTrade symbolTrades trade of
        Inl e \<Rightarrow> Inl e
      | Inr symbolTrades' \<Rightarrow> groupBySymbol symbolTrades' trades)"

text \<open>
  \<^verbatim>\<open>Object.keys\<close> and \<^verbatim>\<open>Object.values\<close> list the keys that are array indices (canonical
  decimal numerals below \<open>2^32 - 1\<close>) first, in ascending numeric order, and then the other
  keys in creation order.
\<close>

definition digitValue :: "char \<Rightarrow> int" where
  "digitValue c =
     (case map_of (zip ''0123456789'' [0, 1, 2, 3, 4, 5, 6, 7, 8, 9]) c of
        Some d \<Rightarrow> d
      | None \<Rightarrow> 0)"

definition indexValue :: "string \<Rightarrow> int" where
  "indexValue s = foldl (\<lambda>n c. 10 * n + digitValue c) 0 s"

definition isArrayIndex :: "string \<Rightarrow> bool" where
  "isArrayIndex s =
     (s \<noteq> [] \<and> list_all (\<lambda>c. c \<in> set ''0123456789'') s \<and>
      (hd s \<noteq> CHR ''0'' \<or> s = ''0'') \<and> indexValue s < 2 ^ 32 - 1)"

definition ownEntries :: "'v js_object \<Rightarrow> 'v js_object" where
  "ownEntries obj =
     sort_key (\<lambda>e. indexValue (fst e)) (filter (\<lambda>e. isArrayIndex (fst e)) obj) @
     filter (\<lambda>e. \<not> isArrayIndex (fst e)) obj"

definition Object_keys :: "'v js_object \<Rightarrow> string list" where
  "Object_keys obj = map fst (ownEntries obj)"

definition Object_values :: "'v js_object \<Rightarrow> 'v list" where
  "Object_values obj = map snd (ownEntries obj)"

section \<open>Replaying each symbol\<close>

text \<open>
  One call of the callback of \<^verbatim>\<open>Object.values(symbolTrades).forEach\<close>: a fresh position
  and average cost, the two lists carried over.
\<close>

definition replaySymbol :: "jsnum list \<times> jsnum list \<Rightarrow> Trade list \<Rightarrow> jsnum list \<times> jsnum list" where
  "replaySymbol pl symbolTradeList =
     (let s = foldl processTrade
                \<lparr>position = Num 0, avgCost = Num 0, profits = fst pl, losses = snd pl\<rparr>
                symbolTradeList
      in (profits s, losses s))"

definition calculatePnL :: "Trade list list \<Rightarrow> jsnum list \<times> jsnum list" where
  "calculatePnL symbolTradeLists = foldl replaySymbol ([], []) symbolTradeLists"

section \<open>Statistics Aggregator\<close>

definition ofLength :: "'a list \<Rightarrow> jsnum" where
  "ofLength xs = Num (real (length xs))"

definition winRate_of :: "jsnum list \<Rightarrow> jsnum list \<Rightarrow> jsnum" where
  "winRate_of ps ls =
     (if 0 < length ps
      then js_mul (js_div (ofLength ps) (js_add (ofLength ps) (ofLength ls))) (Num 100)
      else Num 0)"

definition avgProfit_of :: "jsnum list \<Rightarrow> jsnum" where
  "avgProfit_of ps = (if 0 < length ps then js_div (reduce_sum ps) (ofLength ps) else Num 0)"

definition avgLoss_of :: "jsnum list \<Rightarrow> jsnum" where
  "avgLoss_of ls = (if 0 < length ls then js_div (reduce_sum ls) (ofLength ls) else Num 0)"

definition profitFactor_of :: "jsnum list \<Rightarrow> jsnum list \<Rightarrow> jsnum" where
  "profitFactor_of ps ls =
     (if js_gt (avgLoss_of ls) (Num 0)
      then js_div (js_mul (avgProfit_of ps) (ofLength ps)) (js_mul (avgLoss_of ls) (ofLength ls))
      else Num 0)"

record TradeStats =
  totalTrades :: nat
  winRate :: jsnum
  avgProfit :: jsnum
  avgLoss :: jsnum
  profitFactor :: jsnum

section \<open>Bias Rule Engine\<close>

datatype Severity = Low | Medium | High

text \<open>
  An insight without its two display texts (\<^verbatim>\<open>description\<close>, \<^verbatim>\<open>recommendation\<close>), which
  no rule reads.
\<close>

record BiasInsight =
  type :: string
  severity :: Severity
  metric :: jsnum

text \<open>1. Loss Aversion Bias\<close>

definition lossAversion :: "jsnum \<Rightarrow> jsnum \<Rightarrow> BiasInsight list" where
  "lossAversion avgLoss' avgProfit' =
     (if js_gt avgLoss' (js_mul avgProfit' (Num (3 / 2)))
      then [\<lparr>type = ''Loss Aversion Bias'', severity = High,
             metric = Math_min (js_mul (js_div avgLoss' avgProfit') (Num 50)) (Num 100)\<rparr>]
      else [])"

text \<open>2. Overtrading Bias\<close>

definition overtrading :: "Trade list \<Rightarrow> Trade list js_object \<Rightarrow> BiasInsight list" where
  "overtrading trades symbolTrades =
     (let tradesPerSymbol = js_div (ofLength trades) (ofLength (Object_keys symbolTrades))
      in if js_gt tradesPerSymbol (Num 8)
         then [\<lparr>type = ''Overtrading Bias'', severity = Medium,
                metric = Math_min (js_mul tradesPerSymbol (Num 10)) (Num 100)\<rparr>]
         else [])"

text \<open>
  3. Recency Bias. \<^verbatim>\<open>Array.prototype.sort\<close> is stable; a comparator result that is NaN
  counts as zero. It is modelled by insertion from the left, each element going behind
  those it does not precede. \<^verbatim>\<open>new Date(s).getTime()\<close> is a parameter.
\<close>

fun insertBy :: "('a \<Rightarrow> 'a \<Rightarrow> jsnum) \<Rightarrow> 'a \<Rightarrow> 'a list \<Rightarrow> 'a list" where
  "insertBy cmp x [] = [x]"
| "insertBy cmp x (y # ys) =
     (if js_lt (cmp x y) (Num 0) then x # y # ys else y # insertBy cmp x ys)"

definition sortBy :: "('a \<Rightarrow> 'a \<Rightarrow> jsnum) \<Rightarrow> 'a list \<Rightarrow> 'a list" where
  "sortBy cmp xs = foldl (\<lambda>sorted x. insertBy cmp x sorted) [] xs"

text \<open>
  \<^verbatim>\<open>xs.slice(start)\<close>: a negative start counts from the end; zero, which is also what
  \<^verbatim>\<open>-0\<close> is taken as, starts at the first element.
\<close>

definition slice :: "int \<Rightarrow> 'a list \<Rightarrow> 'a list" where
  "slice start xs =
     (if start < 0 then drop (nat (max (int (length xs) + start) 0)) xs
      else drop (nat (min start (int (length xs)))) xs)"

definition recentTrades_of :: "(string \<Rightarrow> jsnum) \<Rightarrow> Trade list \<Rightarrow> Trade list" where
  "recentTrades_of getTime trades =
     (let sortedTrades = sortBy (\<lambda>a b. js_sub (getTime (date a)) (getTime (date b))) trades
      in slice (- int (length trades div 3)) sortedTrades)"

definition recency :: "(string \<Rightarrow> jsnum) \<Rightarrow> Trade list \<Rightarrow> BiasInsight list" where
  "recency getTime trades =
     (let recentTrades = recentTrades_of getTime trades;
          recentConcentration = js_mul (js_div (ofLength recentTrades) (ofLength trades)) (Num 100)
      in if js_gt recentConcentration (Num 40)
         then [\<lparr>type = ''Recency Bias'', severity = Medium, metric = recentConcentration\<rparr>]
         else [])"

text \<open>
  4. Confirmation Bias. The frequency table is filled after the grouping has gone through,
  so every symbol it meets is absent or an own property holding a count.
\<close>

definition countSymbol :: "nat js_object \<Rightarrow> Trade \<Rightarrow> nat js_object" where
  "countSymbol symbolFrequency trade =
     set_own (symbol trade)
       ((case map_of symbolFrequency (symbol trade) of Some c \<Rightarrow> c | None \<Rightarrow> 0) + 1)
       symbolFrequency"

definition confirmation :: "Trade list \<Rightarrow> BiasInsight list" where
  "confirmation trades =
     (let symbolFrequency = foldl countSymbol [] trades;
          maxFreq = Math_max_spread (map (\<lambda>c. Num (real c)) (Object_values symbolFrequency));
          concentration = js_mul (js_div maxFreq (ofLength trades)) (Num 100)
      in if js_gt concentration (Num 25)
         then [\<lparr>type = ''Confirmation Bias'', severity = Low, metric = concentration\<rparr>]
         else [])"

text \<open>5. Win Rate Analysis, on the win rate before it is rounded.\<close>

definition strategyEffectiveness :: "jsnum \<Rightarrow> BiasInsight list" where
  "strategyEffectiveness winRate' =
     (if js_lt winRate' (Num 40)
      then [\<lparr>type = ''Strategy Effectiveness'', severity = High,
             metric = js_sub (Num 100) winRate'\<rparr>]
      else [])"

section \<open>The engine\<close>

record AnalysisResult =
  insights :: "BiasInsight list"
  stats :: TradeStats

text \<open>
  The realized events of a run: the grouping, then the replay of every group in the order
  of \<^verbatim>\<open>Object.values\<close>.
  The lists \<^verbatim>\<open>buys\<close> and \<^verbatim>\<open>sells\<close> that \<^verbatim>\<open>analyzeTrades\<close> filters out first are never
  read, and are left out.
\<close>

definition realized :: "Trade list \<Rightarrow> js_error + jsnum list \<times> jsnum list" where
  "realized trades =
     (case groupBySymbol [] trades of
        Inl e \<Rightarrow> Inl e
      | Inr symbolTrades \<Rightarrow> Inr (calculatePnL (Object_values symbolTrades)))"

definition analyzeTrades :: "(string \<Rightarrow> jsnum) \<Rightarrow> Trade list \<Rightarrow> js_error + AnalysisResult" where
  "analyzeTrades getTime trades =
     (case groupBySymbol [] trades of
        Inl e \<Rightarrow> Inl e
      | Inr symbolTrades \<Rightarrow>
          (let pl = calculatePnL (Object_values symbolTrades);
               winRate' = winRate_of (fst pl) (snd pl);
               avgProfit' = avgProfit_of (fst pl);
               avgLoss' = avgLoss_of (snd pl);
               tradeStats = \<lparr>totalTrades = length trades,
                             winRate = toFixed1 winRate',
                             avgProfit = avgProfit',
                             avgLoss = avgLoss',
                             profitFactor = profitFactor_of (fst pl) (snd pl)\<rparr>
           in Inr \<lparr>insights =
                      lossAversion avgLoss' avgProfit' @
                      overtrading trades symbolTrades @
                      recency getTime trades @
                      confirmation trades @
                      strategyEffectiveness winRate',
                    stats = tradeStats\<rparr>))"

section \<open>Example runs\<close>

text \<open>
  Inputs for the concrete runs below: a clock for three days, and three short logs on one
  symbol. Every quantity and price in them is a non-negative finite number.
\<close>

definition exampleTime :: "string \<Rightarrow> jsnum" where
  "exampleTime d =
     (if d = ''2024-01-01'' then Num 1704067200000
      else if d = ''2024-01-02'' then Num 1704153600000
      else if d = ''2024-01-03'' then Num 1704240000000
      else NaN)"

definition mkTrade :: "string \<Rightarrow> string \<Rightarrow> string \<Rightarrow> real \<Rightarrow> real \<Rightarrow> Trade" where
  "mkTrade d s a q p = \<lparr>date = d, symbol = s, action = a, quantity = Num q, price = Num p\<rparr>"

definition scenarioA :: "Trade list" where
  "scenarioA =
     [mkTrade ''2024-01-01'' ''AAPL'' ''buy'' 10 10,
      mkTrade ''2024-01-02'' ''AAPL'' ''sell'' 10 15]"

definition scenarioB :: "Trade list" where
  "scenarioB =
     [mkTrade ''2024-01-01'' ''AAPL'' ''buy'' 10 10,
      mkTrade ''2024-01-02'' ''AAPL'' ''sell'' 5 5,
      mkTrade ''2024-01-03'' ''AAPL'' ''sell'' 5 8]"

definition zeroBuyRun :: "Trade list" where
  "zeroBuyRun =
     [mkTrade ''2024-01-01'' ''AAPL'' ''buy'' 0 10,
      mkTrade ''2024-01-02'' ''AAPL'' ''buy'' 10 10,
      mkTrade ''2024-01-03'' ''AAPL'' ''sell'' 5 15]"

section \<open>Facts about numbers\<close>

lemma js_gt_zero_iff: "js_gt x (Num 0) \<longleftrightarrow> x = PInf \<or> (\<exists>a. x = Num a \<and> 0 < a)"
  by (cases x) auto

lemma js_add_pos: "js_gt a (Num 0) \<Longrightarrow> js_gt b (Num 0) \<Longrightarrow> js_gt (js_add a b) (Num 0)"
  by (auto simp: js_gt_zero_iff)

lemma foldl_js_add_pos:
  "js_gt acc (Num 0) \<Longrightarrow> \<forall>x\<in>set xs. js_gt x (Num 0) \<Longrightarrow> js_gt (foldl js_add acc xs) (Num 0)"
  by (induction xs arbitrary: acc) (simp_all add: js_add_pos)

lemma reduce_sum_pos:
  assumes "xs \<noteq> []" and "\<forall>x\<in>set xs. js_gt x (Num 0)"
  shows "js_gt (reduce_sum xs) (Num 0)"
proof -
  obtain y ys where xs: "xs = y # ys" using assms(1) by (cases xs) auto
  have "js_gt (js_add (Num 0) y) (Num 0)" using assms(2) xs by (auto simp: js_gt_zero_iff)
  then show ?thesis using assms(2) xs by (simp add: reduce_sum_def foldl_js_add_pos)
qed

lemma js_div_pos: "js_gt a (Num 0) \<Longrightarrow> 0 < n \<Longrightarrow> js_gt (js_div a (Num n)) (Num 0)"
  by (auto simp: js_gt_zero_iff)

section \<open>Every recorded profit is positive\<close>

lemma processTrade_profits_pos:
  "\<forall>x\<in>set (profits s). js_gt x (Num 0) \<Longrightarrow> \<forall>x\<in>set (profits (processTrade s t)). js_gt x (Num 0)"
  by (auto simp: processTrade_def Let_def)

lemma foldl_processTrade_profits_pos:
  "\<forall>x\<in>set (profits s). js_gt x (Num 0) \<Longrightarrow>
   \<forall>x\<in>set (profits (foldl processTrade s ts)). js_gt x (Num 0)"
proof (induction ts arbitrary: s)
  case Nil
  then show ?case by simp
next
  case (Cons t ts)
  from Cons.prems have "\<forall>x\<in>set (profits (processTrade s t)). js_gt x (Num 0)"
    by (rule processTrade_profits_pos)
  then show ?case using Cons.IH by simp
qed

lemma replaySymbol_profits_pos:
  "\<forall>x\<in>set (fst pl). js_gt x (Num 0) \<Longrightarrow> \<forall>x\<in>set (fst (replaySymbol pl l)). js_gt x (Num 0)"
  unfolding replaySymbol_def Let_def
  using foldl_processTrade_profits_pos
    [of "\<lparr>position = Num 0, avgCost = Num 0, profits = fst pl, losses = snd pl\<rparr>" l]
  by simp

lemma foldl_replaySymbol_profits_pos:
  "\<forall>x\<in>set (fst pl). js_gt x (Num 0) \<Longrightarrow>
   \<forall>x\<in>set (fst (foldl replaySymbol pl ls)). js_gt x (Num 0)"
proof (induction ls arbitrary: pl)
  case Nil
  then show ?case by simp
next
  case (Cons l ls)
  from Cons.prems have "\<forall>x\<in>set (fst (replaySymbol pl l)). js_gt x (Num 0)"
    by (rule replaySymbol_profits_pos)
  then show ?case using Cons.IH by simp
qed

lemma calculatePnL_profits_pos: "\<forall>x\<in>set (fst (calculatePnL ls)). js_gt x (Num 0)"
  unfolding calculatePnL_def by (rule foldl_replaySymbol_profits_pos) simp

lemma avgProfit_of_pos:
  "ps \<noteq> [] \<Longrightarrow> \<forall>x\<in>set ps. js_gt x (Num 0) \<Longrightarrow> js_gt (avgProfit_of ps) (Num 0)"
  by (simp add: avgProfit_of_def ofLength_def reduce_sum_pos js_div_pos)

section \<open>Bounds used by the rules\<close>

lemma winRate_of_Num: "\<exists>w. winRate_of ps ls = Num w \<and> 0 \<le> w \<and> w \<le> 100"
proof (cases "0 < length ps")
  case True
  define q where "q = real (length ps) / (real (length ps) + real (length ls))"
  have "0 < real (length ps)" using True by simp
  moreover have "0 \<le> real (length ls)" by simp
  ultimately have pos: "0 < real (length ps) + real (length ls)" by linarith
  then have "0 \<le> q" and "q \<le> 1" by (simp_all add: q_def)
  then have "0 \<le> q * 100" and "q * 100 \<le> 100" by linarith+
  moreover have "winRate_of ps ls = Num (q * 100)"
    using True pos by (simp add: winRate_of_def ofLength_def q_def)
  ultimately show ?thesis by blast
next
  case False
  then show ?thesis by (simp add: winRate_of_def)
qed

lemma length_insertBy: "length (insertBy cmp x ys) = Suc (length ys)"
  by (induction ys) simp_all

lemma length_foldl_insertBy:
  "length (foldl (\<lambda>sorted x. insertBy cmp x sorted) acc xs) = length acc + length xs"
  by (induction xs arbitrary: acc) (simp_all add: length_insertBy)

lemma length_sortBy: "length (sortBy cmp xs) = length xs"
  by (simp add: sortBy_def length_foldl_insertBy)

lemma length_slice: "length (slice start xs) \<le> length xs"
  by (simp add: slice_def)

lemma length_recentTrades_of: "length (recentTrades_of getTime trades) \<le> length trades"
  using length_slice [of _ "sortBy _ trades"] by (simp add: recentTrades_of_def Let_def length_sortBy)

lemma set_ownEntries: "set (ownEntries obj) = set obj"
  by (auto simp: ownEntries_def)

lemma set_Object_values: "set (Object_values obj) = snd ` set obj"
  by (simp add: Object_values_def set_ownEntries)

lemma length_ownEntries: "length (ownEntries obj) = length obj"
  by (simp add: ownEntries_def sum_length_filter_compl)

lemma set_own_values: "snd ` set (set_own k v obj) \<subseteq> insert v (snd ` set obj)"
  by (auto simp: set_own_def split: option.splits if_splits)

lemma countSymbol_bound:
  assumes "\<forall>c\<in>snd ` set sf. c \<le> m"
  shows "\<forall>c\<in>snd ` set (countSymbol sf t). c \<le> Suc m"
proof -
  let ?v = "(case map_of sf (symbol t) of Some c \<Rightarrow> c | None \<Rightarrow> 0) + 1"
  have "?v \<le> Suc m"
  proof (cases "map_of sf (symbol t)")
    case None
    then show ?thesis by simp
  next
    case (Some c)
    then have "c \<in> snd ` set sf" by (force dest: map_of_SomeD)
    then show ?thesis using assms Some by auto
  qed
  moreover have "snd ` set (countSymbol sf t) \<subseteq> insert ?v (snd ` set sf)"
    unfolding countSymbol_def by (rule set_own_values)
  ultimately show ?thesis using assms by fastforce
qed

lemma foldl_countSymbol_bound:
  "\<forall>c\<in>snd ` set sf. c \<le> m \<Longrightarrow> \<forall>c\<in>snd ` set (foldl countSymbol sf ts). c \<le> m + length ts"
proof (induction ts arbitrary: sf m)
  case Nil
  then show ?case by simp
next
  case (Cons t ts)
  from Cons.prems have "\<forall>c\<in>snd ` set (countSymbol sf t). c \<le> Suc m"
    by (rule countSymbol_bound)
  from Cons.IH [OF this] show ?case by simp
qed

lemma foldl_Math_max_bound:
  assumes "acc = NInf \<or> (\<exists>a. acc = Num a \<and> a \<le> n)"
    and "\<forall>x\<in>set xs. \<exists>c. x = Num c \<and> c \<le> n"
  shows "foldl Math_max acc xs = NInf \<or> (\<exists>a. foldl Math_max acc xs = Num a \<and> a \<le> n)"
  using assms
proof (induction xs arbitrary: acc)
  case Nil
  then show ?case by simp
next
  case (Cons x xs)
  from Cons.prems obtain c where x: "x = Num c" "c \<le> n" by auto
  have "Math_max acc x = NInf \<or> (\<exists>a. Math_max acc x = Num a \<and> a \<le> n)"
    using Cons.prems(1) x by (auto simp: Math_max_def)
  then show ?case using Cons.IH Cons.prems(2) by simp
qed

lemma avgProfit_of_shape:
  assumes "\<forall>x\<in>set ps. js_gt x (Num 0)"
  shows "avgProfit_of ps = PInf \<or> (\<exists>p. avgProfit_of ps = Num p \<and> 0 \<le> p)"
proof (cases "ps = []")
  case True
  then show ?thesis by (simp add: avgProfit_of_def)
next
  case False
  then have "js_gt (avgProfit_of ps) (Num 0)" using assms by (rule avgProfit_of_pos)
  then show ?thesis by (auto simp: js_gt_zero_iff)
qed

lemma lossAversion_metric:
  assumes "i \<in> set (lossAversion al ap)" and "ap = PInf \<or> (\<exists>p. ap = Num p \<and> 0 \<le> p)"
  shows "js_le (metric i) (Num 100)"
proof -
  from assms(1) have fired: "js_gt al (js_mul ap (Num (3 / 2)))"
    and m: "metric i = Math_min (js_mul (js_div al ap) (Num 50)) (Num 100)"
    by (auto simp: lossAversion_def split: if_splits)
  from assms(2) fired obtain p where ap: "ap = Num p" "0 \<le> p"
    by (cases al) (auto simp: inf_times_def)
  from fired ap have al: "al = PInf \<or> (\<exists>a. al = Num a \<and> 0 < a)"
    by (cases al) auto
  show ?thesis
  proof (cases "p = 0")
    case True
    then show ?thesis using al ap unfolding m
      by (auto simp: Math_min_def js_le_def js_ge_def inf_times_def)
  next
    case False
    then show ?thesis using al ap unfolding m
      by (auto simp: Math_min_def js_le_def js_ge_def inf_times_def)
  qed
qed

lemma overtrading_metric:
  assumes "i \<in> set (overtrading trades st)"
  shows "js_le (metric i) (Num 100)"
proof -
  define tps where "tps = js_div (ofLength trades) (ofLength (Object_keys st))"
  from assms have fired: "js_gt tps (Num 8)"
    and m: "metric i = Math_min (js_mul tps (Num 10)) (Num 100)"
    by (auto simp: overtrading_def Let_def tps_def split: if_splits)
  show ?thesis using fired unfolding m
    by (cases tps) (auto simp: Math_min_def js_le_def js_ge_def inf_times_def)
qed

lemma recency_metric:
  assumes "i \<in> set (recency getTime trades)"
  shows "js_le (metric i) (Num 100)"
proof -
  define r where "r = real (length (recentTrades_of getTime trades))"
  define n where "n = real (length trades)"
  have rn: "0 \<le> r" "r \<le> n" by (simp_all add: r_def n_def length_recentTrades_of)
  from assms have fired: "js_gt (js_mul (js_div (Num r) (Num n)) (Num 100)) (Num 40)"
    and m: "metric i = js_mul (js_div (Num r) (Num n)) (Num 100)"
    by (auto simp: recency_def Let_def ofLength_def r_def n_def split: if_splits)
  have "n \<noteq> 0" using fired rn by (auto split: if_splits)
  then have "0 < n" using rn by linarith
  then have "r / n \<le> 1" using rn by simp
  then have "r / n * 100 \<le> 1 * 100" by (rule mult_right_mono) simp
  then show ?thesis using \<open>n \<noteq> 0\<close> unfolding m by (simp add: js_le_def js_ge_def)
qed

lemma strategyEffectiveness_metric:
  assumes "i \<in> set (strategyEffectiveness w)" and "\<exists>v. w = Num v \<and> 0 \<le> v"
  shows "js_le (metric i) (Num 100)"
  using assms by (auto simp: strategyEffectiveness_def js_sub_def js_le_def js_ge_def split: if_splits)

lemma confirmation_metric:
  assumes "i \<in> set (confirmation trades)"
  shows "js_le (metric i) (Num 100)"
proof -
  define n where "n = real (length trades)"
  define mf where
    "mf = Math_max_spread (map (\<lambda>c. Num (real c)) (Object_values (foldl countSymbol [] trades)))"
  have "\<forall>c\<in>snd ` set (foldl countSymbol [] trades). c \<le> 0 + length trades"
    by (rule foldl_countSymbol_bound) simp
  then have "\<forall>x\<in>set (map (\<lambda>c. Num (real c)) (Object_values (foldl countSymbol [] trades))).
               \<exists>c. x = Num c \<and> c \<le> n"
    by (auto simp: set_Object_values n_def)
  then have mf: "mf = NInf \<or> (\<exists>a. mf = Num a \<and> a \<le> n)"
    unfolding mf_def Math_max_spread_def by (intro foldl_Math_max_bound) simp_all
  from assms have fired: "js_gt (js_mul (js_div mf (Num n)) (Num 100)) (Num 25)"
    and m: "metric i = js_mul (js_div mf (Num n)) (Num 100)"
    by (auto simp: confirmation_def Let_def ofLength_def mf_def n_def split: if_splits)
  have n0: "0 \<le> n" by (simp add: n_def)
  from fired mf n0 obtain a where a: "mf = Num a" "a \<le> n"
    by (auto simp: inf_times_def split: if_splits)
  have "n \<noteq> 0" using fired a by (auto simp: inf_times_def split: if_splits)
  then have "0 < n" using n0 by linarith
  then have "a / n \<le> 1" using a by simp
  then have "a / n * 100 \<le> 1 * 100" by (rule mult_right_mono) simp
  then show ?thesis using \<open>n \<noteq> 0\<close> a unfolding m by (simp add: js_le_def js_ge_def)
qed

lemma analyzeTrades_metric_le:
  assumes "analyzeTrades getTime trades = Inr r" and "i \<in> set (insights r)"
  shows "js_le (metric i) (Num 100)"
proof -
  from assms(1) obtain st where st: "groupBySymbol [] trades = Inr st"
    by (auto simp: analyzeTrades_def split: sum.splits)
  define pl where "pl = calculatePnL (Object_values st)"
  have ins: "insights r =
      lossAversion (avgLoss_of (snd pl)) (avgProfit_of (fst pl)) @
      overtrading trades st @ recency getTime trades @ confirmation trades @
      strategyEffectiveness (winRate_of (fst pl) (snd pl))"
    using assms(1) st by (auto simp: analyzeTrades_def Let_def pl_def)
  have ap: "avgProfit_of (fst pl) = PInf \<or> (\<exists>p. avgProfit_of (fst pl) = Num p \<and> 0 \<le> p)"
    unfolding pl_def by (rule avgProfit_of_shape) (rule calculatePnL_profits_pos)
  have w: "\<exists>v. winRate_of (fst pl) (snd pl) = Num v \<and> 0 \<le> v"
    using winRate_of_Num [of "fst pl" "snd pl"] by blast
  from assms(2) ins consider
      "i \<in> set (lossAversion (avgLoss_of (snd pl)) (avgProfit_of (fst pl)))"
    | "i \<in> set (overtrading trades st)"
    | "i \<in> set (recency getTime trades)"
    | "i \<in> set (confirmation trades)"
    | "i \<in> set (strategyEffectiveness (winRate_of (fst pl) (snd pl)))"
    by auto
  then show ?thesis
  proof cases
    case 1
    then show ?thesis using ap by (rule lossAversion_metric)
  next
    case 2
    then show ?thesis by (rule overtrading_metric)
  next
    case 3
    then show ?thesis by (rule recency_metric)
  next
    case 4
    then show ?thesis by (rule confirmation_metric)
  next
    case 5
    then show ?thesis using w by (rule strategyEffectiveness_metric)
  qed
qed

section \<open>Facts about the grouping and the statistics\<close>

lemma map_of_set_own: "map_of (set_own k v obj) k' = (if k' = k then Some v else map_of obj k')"
proof (cases "map_of obj k")
  case None
  then show ?thesis by (auto simp: set_own_def map_add_def split: option.splits)
next
  case (Some w)
  have "map_of (map (\<lambda>(k', v'). if k' = k then (k', v) else (k', v')) obj) k' =
        (if k' = k then (case map_of obj k of None \<Rightarrow> None | Some _ \<Rightarrow> Some v) else map_of obj k')"
    by (induction obj) (auto split: option.splits)
  then show ?thesis using Some by (simp add: set_own_def)
qed

lemma keys_set_own: "fst ` set (set_own k v obj) = insert k (fst ` set obj)"
proof (cases "map_of obj k")
  case None
  then show ?thesis by (simp add: set_own_def)
next
  case (Some w)
  then have "k \<in> fst ` set obj" by (force dest: map_of_SomeD)
  moreover have "fst ` set (map (\<lambda>(k', v'). if k' = k then (k', v) else (k', v')) obj) = fst ` set obj"
    by (induction obj) auto
  ultimately show ?thesis using Some by (auto simp: set_own_def)
qed

lemma pushTrade_Inr:
  assumes "pushTrade st t = Inr st'"
  shows "map_of st' =
           (map_of st)(symbol t \<mapsto> (case map_of st (symbol t) of Some l \<Rightarrow> l | None \<Rightarrow> []) @ [t])"
    and "fst ` set st' = insert (symbol t) (fst ` set st)"
proof -
  define v where "v = (case map_of st (symbol t) of Some l \<Rightarrow> l | None \<Rightarrow> []) @ [t]"
  have st': "st' = set_own (symbol t) v st"
    using assms by (auto simp: pushTrade_def v_def split: option.splits if_splits)
  show "map_of st' = (map_of st)(symbol t \<mapsto> (case map_of st (symbol t) of Some l \<Rightarrow> l | None \<Rightarrow> []) @ [t])"
    unfolding st' v_def [symmetric] by (rule ext) (simp add: map_of_set_own)
  show "fst ` set st' = insert (symbol t) (fst ` set st)"
    unfolding st' by (rule keys_set_own)
qed

lemma pushTrade_Inl_iff:
  "fst ` set st \<inter> set objectPrototypeKeys = {} \<Longrightarrow>
   (pushTrade st t = Inl TypeError) = (symbol t \<in> set objectPrototypeKeys)"
proof -
  assume inv: "fst ` set st \<inter> set objectPrototypeKeys = {}"
  show ?thesis
  proof (cases "map_of st (symbol t)")
    case None
    then show ?thesis by (simp add: pushTrade_def)
  next
    case (Some l)
    then have "symbol t \<in> fst ` set st" by (force dest: map_of_SomeD)
    then have "symbol t \<notin> set objectPrototypeKeys" using inv by blast
    then show ?thesis using Some by (simp add: pushTrade_def)
  qed
qed

text \<open>The grouping fails exactly on a symbol that names a property of the prototype.\<close>

lemma groupBySymbol_returns_gen:
  "fst ` set st \<inter> set objectPrototypeKeys = {} \<Longrightarrow>
   (\<exists>st'. groupBySymbol st trades = Inr st') = (\<forall>t\<in>set trades. symbol t \<notin> set objectPrototypeKeys)"
proof (induction trades arbitrary: st)
  case Nil
  then show ?case by simp
next
  case (Cons t trades)
  show ?case
  proof (cases "pushTrade st t")
    case (Inl e)
    then have "pushTrade st t = Inl TypeError" by (cases e) simp
    then have "symbol t \<in> set objectPrototypeKeys"
      using pushTrade_Inl_iff [OF Cons.prems] by simp
    then show ?thesis using Inl by simp
  next
    case (Inr st1)
    then have "pushTrade st t \<noteq> Inl TypeError" by simp
    then have ok: "symbol t \<notin> set objectPrototypeKeys"
      using pushTrade_Inl_iff [OF Cons.prems] by simp
    have "fst ` set st1 = insert (symbol t) (fst ` set st)"
      using Inr by (rule pushTrade_Inr(2))
    then have "fst ` set st1 \<inter> set objectPrototypeKeys = {}"
      using Cons.prems ok by auto
    from Cons.IH [OF this] show ?thesis using Inr ok by simp
  qed
qed

lemma analyzeTrades_returns:
  "(\<exists>r. analyzeTrades getTime trades = Inr r) = (\<forall>t\<in>set trades. symbol t \<notin> set objectPrototypeKeys)"
proof -
  have "(\<exists>r. analyzeTrades getTime trades = Inr r) = (\<exists>st. groupBySymbol [] trades = Inr st)"
    by (auto simp: analyzeTrades_def Let_def split: sum.splits)
  then show ?thesis using groupBySymbol_returns_gen [of "[]" trades] by simp
qed

text \<open>Each group holds the trades of its symbol in their original order.\<close>

lemma groupBySymbol_lookup_gen:
  "groupBySymbol st trades = Inr st' \<Longrightarrow>
   map_of st' k =
     (case map_of st k of
        Some l \<Rightarrow> Some (l @ filter (\<lambda>t. symbol t = k) trades)
      | None \<Rightarrow> if k \<in> symbol ` set trades then Some (filter (\<lambda>t. symbol t = k) trades) else None)"
proof (induction trades arbitrary: st)
  case Nil
  then show ?case by (simp split: option.splits)
next
  case (Cons t trades)
  from Cons.prems obtain st1 where p: "pushTrade st t = Inr st1"
    and g: "groupBySymbol st1 trades = Inr st'"
    by (auto split: sum.splits)
  have m: "map_of st1 = (map_of st)(symbol t \<mapsto> (case map_of st (symbol t) of Some l \<Rightarrow> l | None \<Rightarrow> []) @ [t])"
    using p by (rule pushTrade_Inr(1))
  show ?case unfolding Cons.IH [OF g] m
    by (auto split: option.splits)
qed

lemma groupBySymbol_lookup:
  "groupBySymbol [] trades = Inr st \<Longrightarrow>
   map_of st k =
     (if k \<in> symbol ` set trades then Some (filter (\<lambda>t. symbol t = k) trades) else None)"
  using groupBySymbol_lookup_gen [of "[]" trades st k] by simp




lemma analyzeTrades_unfold:
  assumes "analyzeTrades getTime trades = Inr r" and "realized trades = Inr (ps, ls)"
  shows "stats r = \<lparr>totalTrades = length trades, winRate = toFixed1 (winRate_of ps ls),
                     avgProfit = avgProfit_of ps, avgLoss = avgLoss_of ls,
                     profitFactor = profitFactor_of ps ls\<rparr>"
    and "\<exists>st. groupBySymbol [] trades = Inr st \<and> insights r =
           lossAversion (avgLoss_of ls) (avgProfit_of ps) @ overtrading trades st @
           recency getTime trades @ confirmation trades @
           strategyEffectiveness (winRate_of ps ls)"
  using assms by (auto simp: analyzeTrades_def realized_def Let_def split: sum.splits)

lemma Object_values_single: "Object_values [(k, v)] = [v]"
  by (simp add: Object_values_def ownEntries_def)

lemma Object_keys_single: "Object_keys [(k, v)] = [k]"
  by (simp add: Object_keys_def ownEntries_def)

section \<open>The recent third, and the ranges of the statistics\<close>

lemma length_recentTrades_of_eq:
  "length (recentTrades_of getTime trades) =
     (if length trades < 3 then length trades else length trades div 3)"
proof -
  let ?n = "length trades"
  have "length (slice (- int (?n div 3)) (sortBy cmp trades)) =
        (if ?n < 3 then ?n else ?n div 3)" for cmp :: "Trade \<Rightarrow> Trade \<Rightarrow> jsnum"
  proof (cases "?n < 3")
    case True
    then have "?n div 3 = 0" by simp
    then show ?thesis using True by (simp add: slice_def length_sortBy)
  next
    case False
    then have "0 < ?n div 3" by simp
    moreover have "?n div 3 \<le> ?n" by simp
    ultimately show ?thesis using False by (simp add: slice_def length_sortBy)
  qed
  then show ?thesis by (simp add: recentTrades_of_def Let_def)
qed

lemma recency_fires_iff:
  "recency getTime trades \<noteq> [] \<longleftrightarrow> length trades = 1 \<or> length trades = 2"
proof (cases "length trades < 3")
  case True
  then have "length trades = 0 \<or> length trades = 1 \<or> length trades = 2"
    by linarith
  then have "trades = [] \<or> length trades = 1 \<or> length trades = 2"
    by simp
  then consider "trades = []" | "length trades = 1" | "length trades = 2"
    by blast
  then show ?thesis
  proof cases
    case 1
    then show ?thesis
      by (simp add: recency_def recentTrades_of_def sortBy_def slice_def Let_def ofLength_def)
  next
    case 2
    then show ?thesis
      by (simp add: recency_def Let_def ofLength_def length_recentTrades_of_eq)
  next
    case 3
    then show ?thesis
      by (simp add: recency_def Let_def ofLength_def length_recentTrades_of_eq)
  qed
next
  case False
  define n where "n = length trades"
  have "3 * (n div 3) \<le> n" by simp
  then have "3 * real (n div 3) \<le> real n" by (metis of_nat_le_iff of_nat_mult of_nat_numeral)
  moreover have "0 < real n" using False by (cases trades) (simp_all add: n_def)
  ultimately have le40: "real (n div 3) / real n * 100 \<le> 40"
    by (simp add: field_simps)
  note le40
  moreover have "trades \<noteq> []" using False by (cases trades) simp_all
  ultimately show ?thesis using False
    by (simp add: recency_def Let_def ofLength_def length_recentTrades_of_eq n_def)
qed

lemma toFixed1_percent:
  assumes "0 \<le> w" and "w \<le> 100"
  shows "\<exists>v. toFixed1 (Num w) = Num v \<and> 0 \<le> v \<and> v \<le> 100"
proof -
  have small: "\<not> 10 ^ 21 \<le> \<bar>w\<bar>" using assms by simp
  define k where "k = \<lfloor>\<bar>w\<bar> * 10 + 1 / 2\<rfloor>"
  have "\<bar>w\<bar> * 10 + 1 / 2 < 1001" using assms by simp
  then have "k < 1001" unfolding k_def by (simp add: floor_less_iff)
  then have k1: "real_of_int k \<le> 1000" by simp
  have "0 \<le> \<bar>w\<bar> * 10 + 1 / 2" by simp
  then have k0: "0 \<le> real_of_int k" unfolding k_def by simp
  have s: "sgn w = 0 \<or> sgn w = 1" using assms(1) by (auto simp: sgn_if)
  have v: "toFixed1 (Num w) = Num (sgn w * real_of_int k / 10)"
    using small by (simp add: k_def)
  from s k0 k1 have "0 \<le> sgn w * real_of_int k / 10 \<and> sgn w * real_of_int k / 10 \<le> 100"
    by auto
  with v show ?thesis by blast
qed

text \<open>The rounded win rate of a returned result lies between 0 and 100.\<close>

lemma stats_winRate_range:
  assumes "analyzeTrades getTime trades = Inr r"
  shows "js_ge (winRate (stats r)) (Num 0) \<and> js_le (winRate (stats r)) (Num 100)"
proof -
  from assms obtain pl where pl: "realized trades = Inr pl"
    by (auto simp: analyzeTrades_def realized_def split: sum.splits)
  obtain ps ls where pls: "pl = (ps, ls)" by (cases pl)
  have w: "winRate (stats r) = toFixed1 (winRate_of ps ls)"
    using analyzeTrades_unfold(1) [OF assms pl [unfolded pls]] by simp
  obtain x where x: "winRate_of ps ls = Num x" "0 \<le> x" "x \<le> 100"
    using winRate_of_Num by blast
  from toFixed1_percent [OF x(2,3)] obtain v where
    "toFixed1 (Num x) = Num v" "0 \<le> v" "v \<le> 100" by blast
  then show ?thesis unfolding w x(1) by (simp add: js_ge_def js_le_def)
qed

text \<open>The average profit of a returned result is never negative and never NaN.\<close>

lemma stats_avgProfit_nonneg:
  assumes "analyzeTrades getTime trades = Inr r"
  shows "js_ge (avgProfit (stats r)) (Num 0)"
proof -
  from assms obtain st where st: "groupBySymbol [] trades = Inr st"
    by (auto simp: analyzeTrades_def split: sum.splits)
  have "avgProfit (stats r) = avgProfit_of (fst (calculatePnL (Object_values st)))"
    using assms st by (auto simp: analyzeTrades_def Let_def)
  moreover have "avgProfit_of (fst (calculatePnL (Object_values st))) = PInf \<or>
      (\<exists>p. avgProfit_of (fst (calculatePnL (Object_values st))) = Num p \<and> 0 \<le> p)"
    by (rule avgProfit_of_shape) (rule calculatePnL_profits_pos)
  ultimately show ?thesis by (auto simp: js_ge_def)
qed

section \<open>The example runs, evaluated\<close>

lemmas engine_simps =
  analyzeTrades_def realized_def pushTrade_def set_own_def objectPrototypeKeys_def
  Object_values_def Object_keys_def ownEntries_def isArrayIndex_def calculatePnL_def
  replaySymbol_def processTrade_def toLowerCase_def lower_char_def Let_def winRate_of_def
  avgProfit_of_def avgLoss_of_def profitFactor_of_def ofLength_def reduce_sum_def
  lossAversion_def overtrading_def recency_def recentTrades_of_def sortBy_def slice_def
  confirmation_def countSymbol_def Math_max_spread_def Math_max_def Math_min_def
  strategyEffectiveness_def js_sub_def js_lt_def js_le_def js_ge_def inf_times_def
  mkTrade_def exampleTime_def

lemma scenarioA_run:
  "analyzeTrades exampleTime scenarioA =
     Inr \<lparr>insights =
            [\<lparr>type = ''Recency Bias'', severity = Medium, metric = Num 100\<rparr>,
             \<lparr>type = ''Confirmation Bias'', severity = Low, metric = Num 100\<rparr>],
          stats = \<lparr>totalTrades = 2, winRate = Num 100, avgProfit = Num 50,
                    avgLoss = Num 0, profitFactor = Num 0\<rparr>\<rparr>"
  by (simp add: scenarioA_def engine_simps)

lemma scenarioA_realized: "realized scenarioA = Inr ([Num 50], [])"
  by (simp add: scenarioA_def engine_simps)

lemma scenarioB_run:
  "analyzeTrades exampleTime scenarioB =
     Inr \<lparr>insights =
            [\<lparr>type = ''Loss Aversion Bias'', severity = High, metric = Num 100\<rparr>,
             \<lparr>type = ''Confirmation Bias'', severity = Low, metric = Num 100\<rparr>,
             \<lparr>type = ''Strategy Effectiveness'', severity = High, metric = Num 100\<rparr>],
          stats = \<lparr>totalTrades = 3, winRate = Num 0, avgProfit = Num 0,
                    avgLoss = Num (35 / 2), profitFactor = Num 0\<rparr>\<rparr>"
  by (simp add: scenarioB_def engine_simps)


lemma zeroBuyRun_run:
  "analyzeTrades getTime zeroBuyRun =
     Inr \<lparr>insights =
            [\<lparr>type = ''Confirmation Bias'', severity = Low, metric = Num 100\<rparr>,
             \<lparr>type = ''Strategy Effectiveness'', severity = High, metric = Num 100\<rparr>],
          stats = \<lparr>totalTrades = 3, winRate = Num 0, avgProfit = Num 0,
                    avgLoss = NaN, profitFactor = Num 0\<rparr>\<rparr>"
  by (simp add: zeroBuyRun_def engine_simps)

section \<open>The claims\<close>







text \<open>
  C7. Scenario A: a buy of 10 at 10 and then a sell of 10 at 15 on one symbol give exactly
  one profit event, 50, and no loss event; the statistics are \<open>totalTrades = 2\<close>,
  \<open>winRate = 100\<close>, \<open>avgProfit = 50\<close>, \<open>avgLoss = 0\<close> and \<open>profitFactor = 0\<close>.
\<close>

theorem scenarioA_result:
  assumes "s \<notin> set objectPrototypeKeys"
  shows "realized
           [\<lparr>date = d1, symbol = s, action = ''buy'', quantity = Num 10, price = Num 10\<rparr>,
            \<lparr>date = d2, symbol = s, action = ''sell'', quantity = Num 10, price = Num 15\<rparr>] =
           Inr ([Num 50], []) \<and>
         (\<exists>r. analyzeTrades getTime
                 [\<lparr>date = d1, symbol = s, action = ''buy'', quantity = Num 10, price = Num 10\<rparr>,
                  \<lparr>date = d2, symbol = s, action = ''sell'', quantity = Num 10, price = Num 15\<rparr>] =
                 Inr r \<and>
               stats r = \<lparr>totalTrades = 2, winRate = Num 100, avgProfit = Num 50,
                           avgLoss = Num 0, profitFactor = Num 0\<rparr>)"
proof -
  let ?b = "\<lparr>date = d1, symbol = s, action = ''buy'', quantity = Num 10, price = Num 10\<rparr>"
  let ?s = "\<lparr>date = d2, symbol = s, action = ''sell'', quantity = Num 10, price = Num 15\<rparr>"
  have g: "groupBySymbol [] [?b, ?s] = Inr [(s, [?b, ?s])]"
    using assms by (simp add: pushTrade_def set_own_def)
  have p: "calculatePnL [[?b, ?s]] = ([Num 50], [])"
    by (simp add: calculatePnL_def replaySymbol_def processTrade_def toLowerCase_def
        lower_char_def Let_def js_sub_def Math_min_def)
  have r: "realized [?b, ?s] = Inr ([Num 50], [])"
    unfolding realized_def g by (simp add: Object_values_single p)
  have "\<exists>r. analyzeTrades getTime [?b, ?s] = Inr r"
    using assms by (simp add: analyzeTrades_returns)
  then obtain res where res: "analyzeTrades getTime [?b, ?s] = Inr res" by blast
  have "stats res = \<lparr>totalTrades = 2, winRate = Num 100, avgProfit = Num 50,
                      avgLoss = Num 0, profitFactor = Num 0\<rparr>"
    unfolding analyzeTrades_unfold(1) [OF res r]
    by (simp add: winRate_of_def avgProfit_of_def avgLoss_of_def profitFactor_of_def
        ofLength_def reduce_sum_def)
  with res r show ?thesis by blast
qed

theorem scenarioA_result_witness:
  "''AAPL'' \<notin> set objectPrototypeKeys \<and>
   realized scenarioA = Inr ([Num 50], []) \<and>
   (\<exists>r. analyzeTrades exampleTime scenarioA = Inr r \<and>
         stats r = \<lparr>totalTrades = 2, winRate = Num 100, avgProfit = Num 50,
                     avgLoss = Num 0, profitFactor = Num 0\<rparr>)"
proof -
  have h: "''AAPL'' \<notin> set objectPrototypeKeys" by (simp add: objectPrototypeKeys_def)
  show ?thesis
    using h scenarioA_result [OF h, of "''2024-01-01''" "''2024-01-02''" exampleTime]
    by (simp add: scenarioA_def mkTrade_def)
qed

text \<open>
  C9. Whenever \<open>avgProfit\<close> is \<open>0\<close> and \<open>avgLoss > 0\<close>, the Loss Aversion rule fires:
  \<open>avgLoss / avgProfit\<close> is \<open>Infinity\<close>, which \<open>Math.min(\<dots>, 100)\<close> cuts to \<open>100\<close>, so the
  insight is emitted once, with metric exactly \<open>100\<close>, and the run returns its result.
\<close>

theorem lossAversion_zero_avgProfit:
  assumes "analyzeTrades getTime trades = Inr r"
    and "avgProfit (stats r) = Num 0"
    and "js_gt (avgLoss (stats r)) (Num 0)"
  shows "filter (\<lambda>i. type i = ''Loss Aversion Bias'') (insights r) =
           [\<lparr>type = ''Loss Aversion Bias'', severity = High, metric = Num 100\<rparr>]"
proof -
  from assms(1) obtain pl where pl: "realized trades = Inr pl"
    by (auto simp: analyzeTrades_def realized_def split: sum.splits)
  obtain ps ls where pls: "pl = (ps, ls)" by (cases pl)
  note re = pl [unfolded pls]
  from analyzeTrades_unfold(2) [OF assms(1) re] obtain st where
    ins: "insights r =
           lossAversion (avgLoss_of ls) (avgProfit_of ps) @ overtrading trades st @
           recency getTime trades @ confirmation trades @
           strategyEffectiveness (winRate_of ps ls)"
    by blast
  have ap: "avgProfit_of ps = Num 0" and al: "js_gt (avgLoss_of ls) (Num 0)"
    using assms(2,3) analyzeTrades_unfold(1) [OF assms(1) re] by simp_all
  have "js_div (avgLoss_of ls) (Num 0) = PInf"
    using al by (auto simp: js_gt_zero_iff)
  then have la: "lossAversion (avgLoss_of ls) (Num 0) =
      [\<lparr>type = ''Loss Aversion Bias'', severity = High, metric = Num 100\<rparr>]"
    using al by (simp add: lossAversion_def inf_times_def Math_min_def)
  show ?thesis
    unfolding ins ap la
    by (simp add: overtrading_def recency_def confirmation_def strategyEffectiveness_def
        Let_def)
qed

theorem lossAversion_zero_avgProfit_witness:
  "(\<exists>r. analyzeTrades exampleTime scenarioB = Inr r \<and> avgProfit (stats r) = Num 0 \<and>
        js_gt (avgLoss (stats r)) (Num 0) \<and>
        filter (\<lambda>i. type i = ''Loss Aversion Bias'') (insights r) =
          [\<lparr>type = ''Loss Aversion Bias'', severity = High, metric = Num 100\<rparr>])"
proof -
  let ?r = "\<lparr>insights =
            [\<lparr>type = ''Loss Aversion Bias'', severity = High, metric = Num 100\<rparr>,
             \<lparr>type = ''Confirmation Bias'', severity = Low, metric = Num 100\<rparr>,
             \<lparr>type = ''Strategy Effectiveness'', severity = High, metric = Num 100\<rparr>],
          stats = \<lparr>totalTrades = 3, winRate = Num 0, avgProfit = Num 0,
                    avgLoss = Num (35 / 2), profitFactor = Num 0\<rparr>\<rparr>"
  have h1: "analyzeTrades exampleTime scenarioB = Inr ?r" by (rule scenarioB_run)
  have h2: "avgProfit (stats ?r) = Num 0" by simp
  have h3: "js_gt (avgLoss (stats ?r)) (Num 0)" by simp
  from lossAversion_zero_avgProfit [OF h1 h2 h3] h1 h2 h3 show ?thesis by blast
qed

text \<open>
  C10. With no condition on quantities and prices, every element of \<open>profits\<close> is strictly
  positive: a step of the replay leaves \<open>profits\<close> alone unless it is a sell matched
  against a strictly positive position whose P&L is strictly greater than \<open>0\<close>, which it
  appends. Consequently \<open>avgProfit > 0\<close> as soon as there is one profit event.
\<close>

theorem profits_strictly_positive:
  assumes "analyzeTrades getTime trades = Inr r" and "realized trades = Inr (ps, ls)"
  shows "(\<forall>x\<in>set ps. js_gt x (Num 0)) \<and>
         (ps \<noteq> [] \<longrightarrow> js_gt (avgProfit (stats r)) (Num 0)) \<and>
         (\<forall>s t. profits (processTrade s t) = profits s \<or>
            (toLowerCase (action t) = ''sell'' \<and> js_gt (position s) (Num 0) \<and>
             js_gt (js_mul (js_sub (price t) (avgCost s)) (Math_min (quantity t) (position s)))
                   (Num 0) \<and>
             profits (processTrade s t) =
               profits s @ [js_mul (js_sub (price t) (avgCost s))
                                   (Math_min (quantity t) (position s))]))"
proof -
  from assms(2) obtain st where "calculatePnL (Object_values st) = (ps, ls)"
    by (auto simp: realized_def split: sum.splits)
  then have "ps = fst (calculatePnL (Object_values st))" by simp
  then have a: "\<forall>x\<in>set ps. js_gt x (Num 0)" by (simp add: calculatePnL_profits_pos)
  have b: "ps \<noteq> [] \<longrightarrow> js_gt (avgProfit (stats r)) (Num 0)"
    using a avgProfit_of_pos [of ps] analyzeTrades_unfold(1) [OF assms] by simp
  have c: "\<forall>s t. profits (processTrade s t) = profits s \<or>
            (toLowerCase (action t) = ''sell'' \<and> js_gt (position s) (Num 0) \<and>
             js_gt (js_mul (js_sub (price t) (avgCost s)) (Math_min (quantity t) (position s)))
                   (Num 0) \<and>
             profits (processTrade s t) =
               profits s @ [js_mul (js_sub (price t) (avgCost s))
                                   (Math_min (quantity t) (position s))])"
    by (simp add: processTrade_def Let_def)
  from a b c show ?thesis by blast
qed

theorem profits_strictly_positive_witness:
  "(\<exists>r. analyzeTrades exampleTime scenarioA = Inr r \<and>
        realized scenarioA = Inr ([Num 50], []) \<and> js_gt (Num 50) (Num 0) \<and>
        js_gt (avgProfit (stats r)) (Num 0))"
  using profits_strictly_positive [OF scenarioA_run scenarioA_realized] scenarioA_run
    scenarioA_realized
  by simp

text \<open>
  C8. No emitted insight has a metric above \<open>100\<close>: two rules cap their metric with
  \<open>Math.min(\<dots>, 100)\<close>, two report a share of the trades, and the last reports
  \<open>100 - winRate\<close> with \<open>winRate\<close> never negative. So there is no input for which some
  emitted metric is strictly greater than \<open>100\<close>, and for every input every emitted metric
  is at most \<open>100\<close>.
\<close>

theorem metric_never_above_100:
  "\<not> (\<exists>getTime trades r. analyzeTrades getTime trades = Inr r \<and>
        (\<exists>i. i \<in> set (insights r) \<and> js_gt (metric i) (Num 100)))"
proof
  assume "\<exists>getTime trades r. analyzeTrades getTime trades = Inr r \<and>
        (\<exists>i. i \<in> set (insights r) \<and> js_gt (metric i) (Num 100))"
  then obtain getTime trades r i where run: "analyzeTrades getTime trades = Inr r"
    and i: "i \<in> set (insights r)" and gt: "js_gt (metric i) (Num 100)"
    by blast
  from run i have "js_le (metric i) (Num 100)" by (rule analyzeTrades_metric_le)
  with gt show False by (simp add: js_le_def js_ge_def)
qed

theorem metric_at_most_100:
  assumes "analyzeTrades getTime trades = Inr r"
  shows "\<forall>i\<in>set (insights r). js_le (metric i) (Num 100)"
  using assms by (blast intro: analyzeTrades_metric_le)

theorem metric_at_most_100_witness:
  "(\<exists>r. analyzeTrades exampleTime scenarioB = Inr r \<and>
        map metric (insights r) = [Num 100, Num 100, Num 100] \<and>
        list_all (\<lambda>i. js_le (metric i) (Num 100)) (insights r))"
  using metric_at_most_100 [OF scenarioB_run] scenarioB_run
  by (simp add: js_le_def js_ge_def)

text \<open>
  C2. The Recency rule on a single trade: \<open>floor(1 / 3)\<close> is \<open>0\<close>, yet \<open>slice(-0)\<close> returns
  the whole sorted list, so one trade is selected, the concentration is \<open>100\<close> and the
  insight is emitted with metric \<open>100\<close>. From three trades on the rule selects
  \<open>floor(n / 3)\<close> trades and never fires (\<open>length_recentTrades_of_eq\<close>,
  \<open>recency_fires_iff\<close>).
\<close>

theorem recency_single_trade:
  "length [t] div 3 = 0 \<and>
   recentTrades_of getTime [t] = [t] \<and>
   recency getTime [t] = [\<lparr>type = ''Recency Bias'', severity = Medium, metric = Num 100\<rparr>]"
  by (simp add: recency_def recentTrades_of_def sortBy_def slice_def ofLength_def Let_def)

text \<open>
  C3. The buy update has no guard: a buy of quantity \<open>0\<close> on a flat position divides
  \<open>0\<close> by \<open>0\<close> and leaves \<open>avgCost\<close> NaN.
\<close>

theorem zero_quantity_buy_NaN:
  "avgCost (processTrade \<lparr>position = Num 0, avgCost = Num 0, profits = [], losses = []\<rparr>
              (mkTrade ''2024-01-01'' ''AAPL'' ''buy'' 0 10)) = NaN"
  by (simp add: processTrade_def mkTrade_def toLowerCase_def lower_char_def)

text \<open>
  C5. A run whose quantities and prices are all non-negative and finite (a buy of \<open>0\<close>,
  a buy of \<open>10\<close>, a sell of \<open>5\<close>, on one symbol) returns \<open>avgLoss = NaN\<close>, which is not
  \<open>>= 0\<close>. The win rate of every returned result does lie in \<open>[0, 100]\<close>, and the average
  profit is never negative (\<open>stats_winRate_range\<close>, \<open>stats_avgProfit_nonneg\<close>).
\<close>

theorem zeroBuyRun_avgLoss_NaN:
  "\<exists>r. analyzeTrades getTime zeroBuyRun = Inr r \<and> avgLoss (stats r) = NaN \<and>
       \<not> js_ge (avgLoss (stats r)) (Num 0)"
  by (simp add: zeroBuyRun_run js_ge_def)

end
